theory Spec2Isabelle
  imports Complex_Main "HOL-Library.Sublist"
begin

section \<open>Data model of the log dashboard (src/src/App.jsx)\<close>

text \<open>
  The component \<open>App\<close> keeps its whole state in \<open>useState\<close> cells. Each cell is a field
  of the record \<open>state\<close> below. Several objects of the program share field names
  (\<open>log.level\<close> and \<open>filters.level\<close>, \<open>filters.page\<close> and \<open>pagination.page\<close>), so fields
  are written with their record name throughout, as the source writes them.

  A log record as it arrives on the wire: \<open>{_id, timestamp, level, service, message}\<close>.
  Strings are byte strings.
\<close>

record log =
  ident :: string
  timestamp :: string
  level :: string
  service :: string
  message :: string

text \<open>
  The \<open>filters\<close> cell (lines 30-36). An unset filter is the empty string, which is falsy
  in JavaScript. The page-size select hands \<open>limit\<close> over as a decimal string
  (\<open>"25"\<close>, \<open>"50"\<close>, \<open>"100"\<close>); both uses of \<open>limit\<close> in the list code (\<open>limit - 1\<close> and
  the argument of \<open>slice\<close>) convert it to a number, so it is an integer here.
\<close>

record filters =
  level :: string
  service :: string
  search :: string
  limit :: int
  page :: int

record stats =
  INFO :: int
  WARN :: int
  ERROR :: int
  total :: int
  errorRate :: real

record pagination =
  page :: int
  pages :: int
  total :: int

text \<open>The body of a successful \<open>GET /logs\<close> response: \<open>{logs, pagination}\<close>.\<close>

record response =
  logs :: "log list"
  pagination :: pagination

text \<open>
  \<open>axios.get\<close> rejects on a network error and on every status outside 2xx; both reach
  the \<open>catch\<close> block of the caller.
\<close>

datatype axios_error = NetworkError | StatusError int

text \<open>
  The state cells of lines 21-40. \<open>pagination\<close> starts as the empty object \<open>{}\<close>, which
  is \<open>None\<close> here. \<open>console\<close> collects what \<open>console.error\<close> was called with. The
  \<open>socket\<close> cell only decides whether the socket handlers are registered; events below are
  the ones delivered to registered handlers.
\<close>

record state =
  logs :: "log list"
  filteredLogs :: "log list"
  stats :: stats
  filters :: filters
  loading :: bool
  realTimeEnabled :: bool
  pagination :: "pagination option"
  console :: "(string \<times> axios_error) list"

section \<open>JavaScript library functions used by the list code\<close>

text \<open>
  \<open>String.prototype.toLowerCase\<close>, on ASCII: the letters \<open>A\<close> to \<open>Z\<close> go to \<open>a\<close> to
  \<open>z\<close>, every other byte stays.
\<close>

definition toLowerCase :: "string \<Rightarrow> string" where
  "toLowerCase s =
     map (\<lambda>c. case map_of (zip ''ABCDEFGHIJKLMNOPQRSTUVWXYZ'' ''abcdefghijklmnopqrstuvwxyz'') c of
                 Some d \<Rightarrow> d
               | None \<Rightarrow> c) s"

text \<open>
  \<open>s.includes(t)\<close>: \<open>t\<close> occurs in \<open>s\<close> at some position; the empty string occurs
  everywhere.
\<close>

fun str_includes :: "string \<Rightarrow> string \<Rightarrow> bool" where
  "str_includes [] t = (t = [])"
| "str_includes (c # s) t = (prefix t (c # s) \<or> str_includes s t)"

text \<open>
  \<open>Array.prototype.slice(b, e)\<close> as ECMAScript defines it: a negative index counts from
  the end, both indices are clamped to the array, and an empty range gives the empty
  array.
\<close>

definition slice :: "'a list \<Rightarrow> int \<Rightarrow> int \<Rightarrow> 'a list" where
  "slice xs b e =
     (let len = int (length xs);
          k = (if b < 0 then max (len + b) 0 else min b len);
          final = (if e < 0 then max (len + e) 0 else min e len)
      in take (nat (final - k)) (drop (nat k) xs))"

section \<open>The filter predicate and the visible slice\<close>

text \<open>\<open>logMatchesFilters\<close>, lines 51-63: three guarded early returns, then \<open>true\<close>.\<close>

definition logMatchesFilters :: "filters \<Rightarrow> log \<Rightarrow> bool" where
  "logMatchesFilters f l =
     (if filters.level f \<noteq> [] \<and> log.level l \<noteq> filters.level f then False
      else if filters.service f \<noteq> [] \<and> log.service l \<noteq> filters.service f then False
      else if filters.search f \<noteq> [] \<and>
              \<not> str_includes (toLowerCase (log.message l)) (toLowerCase (filters.search f))
      then False
      else True)"

text \<open>\<open>applyFilters\<close>, lines 66-74: the input itself when no filter is set.\<close>

definition applyFilters :: "filters \<Rightarrow> log list \<Rightarrow> log list" where
  "applyFilters f logsToFilter =
     (if filters.level f = [] \<and> filters.service f = [] \<and> filters.search f = []
      then logsToFilter
      else filter (logMatchesFilters f) logsToFilter)"

text \<open>
  The value the recompute effect (lines 106-109) writes into \<open>filteredLogs\<close>:
  \<open>applyFilters(logs).slice(0, filters.limit)\<close>.
\<close>

definition visibleSlice :: "filters \<Rightarrow> log list \<Rightarrow> log list" where
  "visibleSlice f ls = slice (applyFilters f ls) 0 (filters.limit f)"

section \<open>State updates, handlers and effects\<close>

text \<open>
  A handler does not change the state itself: it queues calls of the \<open>useState\<close> setters,
  and React applies the queue before the next render. A setter is called either with an
  updater function of the previous value (\<open>setLogs((prev) => ...)\<close>) or with the new
  value, which is the constant updater here. \<open>ConsoleError\<close> is a call of
  \<open>console.error\<close>.
\<close>

datatype update =
    SetLogs "log list \<Rightarrow> log list"
  | SetFilteredLogs "log list \<Rightarrow> log list"
  | SetStats stats
  | SetFilters "filters \<Rightarrow> filters"
  | SetLoading bool
  | SetPagination pagination
  | ConsoleError string axios_error

fun apply_update :: "update \<Rightarrow> state \<Rightarrow> state" where
  "apply_update (SetLogs g) s = s\<lparr>state.logs := g (state.logs s)\<rparr>"
| "apply_update (SetFilteredLogs g) s = s\<lparr>filteredLogs := g (filteredLogs s)\<rparr>"
| "apply_update (SetStats v) s = s\<lparr>stats := v\<rparr>"
| "apply_update (SetFilters g) s = s\<lparr>filters := g (filters s)\<rparr>"
| "apply_update (SetLoading v) s = s\<lparr>loading := v\<rparr>"
| "apply_update (SetPagination v) s = s\<lparr>state.pagination := Some v\<rparr>"
| "apply_update (ConsoleError msg err) s = s\<lparr>console := console s @ [(msg, err)]\<rparr>"

definition commit :: "update list \<Rightarrow> state \<Rightarrow> state" where
  "commit us s = fold apply_update us s"

text \<open>
  The \<open>newLog\<close> socket handler, lines 80-93. \<open>realTimeEnabled\<close>, \<open>filters.limit\<close> and
  \<open>logMatchesFilters\<close> are the values of the render that registered the handler; the
  handler is registered again whenever one of them changes (line 103), so in a settled
  state they are the current ones.
\<close>

definition on_newLog :: "state \<Rightarrow> log \<Rightarrow> update list" where
  "on_newLog s newLog =
     (if realTimeEnabled s
      then SetLogs (\<lambda>prev. newLog # prev) #
           (if logMatchesFilters (filters s) newLog
            then [SetFilteredLogs (\<lambda>prev. newLog # slice prev 0 (filters.limit (filters s) - 1))]
            else [])
      else [])"

text \<open>The \<open>statsUpdate\<close> socket handler, lines 95-97.\<close>

definition on_statsUpdate :: "state \<Rightarrow> stats \<Rightarrow> update list" where
  "on_statsUpdate s newStats = [SetStats newStats]"

text \<open>
  \<open>fetchLogs\<close>, lines 112-132, runs in two parts: up to the \<open>await\<close> it sets the loading
  flag and sends the request; when the request settles, the rest of the \<open>try\<close> block or
  the \<open>catch\<close> block runs, then \<open>finally\<close>. The request itself leaves the state alone.
\<close>

definition fetchLogs_start :: "update list" where
  "fetchLogs_start = [SetLoading True]"

definition fetchLogs_settled :: "axios_error + response \<Rightarrow> update list" where
  "fetchLogs_settled result =
     (case result of
        Inr resp \<Rightarrow>
          [SetLogs (\<lambda>_. response.logs resp),
           SetFilteredLogs (\<lambda>_. response.logs resp),
           SetPagination (response.pagination resp)]
      | Inl error \<Rightarrow> [ConsoleError ''Error fetching logs:'' error])
     @ [SetLoading False]"

text \<open>\<open>fetchStats\<close>, lines 135-142; it sets nothing before its request settles.\<close>

definition fetchStats_settled :: "axios_error + stats \<Rightarrow> update list" where
  "fetchStats_settled result =
     (case result of
        Inr data \<Rightarrow> [SetStats data]
      | Inl error \<Rightarrow> [ConsoleError ''Error fetching stats:'' error])"

text \<open>
  \<open>handleFilterChange(key, value)\<close>, lines 160-166. A key together with its value is a
  \<open>field\<close>. The updater builds \<open>{...prev, [key]: value, page: 1}\<close>: the computed key is
  written first, \<open>page\<close> after it.
\<close>

datatype field = Level string | Service string | Search string | Limit int | Page int

fun assign :: "filters \<Rightarrow> field \<Rightarrow> filters" where
  "assign prev (Level v) = prev\<lparr>filters.level := v\<rparr>"
| "assign prev (Service v) = prev\<lparr>filters.service := v\<rparr>"
| "assign prev (Search v) = prev\<lparr>filters.search := v\<rparr>"
| "assign prev (Limit v) = prev\<lparr>filters.limit := v\<rparr>"
| "assign prev (Page v) = prev\<lparr>filters.page := v\<rparr>"

definition nextFilters :: "field \<Rightarrow> filters \<Rightarrow> filters" where
  "nextFilters kv prev = (assign prev kv)\<lparr>filters.page := 1\<rparr>"

definition handleFilterChange :: "field \<Rightarrow> update list" where
  "handleFilterChange kv = [SetFilters (nextFilters kv)]"

text \<open>\<open>handlePageChange\<close>, lines 169-171.\<close>

definition handlePageChange :: "int \<Rightarrow> update list" where
  "handlePageChange newPage = [SetFilters (\<lambda>prev. prev\<lparr>filters.page := newPage\<rparr>)]"

text \<open>The initial filters (lines 30-36), which the Clear Filters button sets again.\<close>

definition initial_filters :: filters where
  "initial_filters =
     \<lparr>filters.level = [], service = [], search = [], limit = 50, page = 1\<rparr>"

definition clearFilters :: "update list" where
  "clearFilters = [SetFilters (\<lambda>_. initial_filters)]"

text \<open>
  What can happen to a mounted component: a socket message, a settled request, a user
  action, or a tick of the polling interval, which exists only while real-time mode is
  off (lines 149-156) and starts both fetches.
\<close>

datatype event =
    NewLog log
  | StatsUpdate stats
  | LogsFetched "axios_error + response"
  | StatsFetched "axios_error + stats"
  | FilterChange field
  | PageChange int
  | ClearFilters
  | Tick

fun handler :: "state \<Rightarrow> event \<Rightarrow> update list" where
  "handler s (NewLog newLog) = on_newLog s newLog"
| "handler s (StatsUpdate newStats) = on_statsUpdate s newStats"
| "handler s (LogsFetched result) = fetchLogs_settled result"
| "handler s (StatsFetched result) = fetchStats_settled result"
| "handler s (FilterChange kv) = handleFilterChange kv"
| "handler s (PageChange newPage) = handlePageChange newPage"
| "handler s ClearFilters = clearFilters"
| "handler s Tick = (if realTimeEnabled s then [] else fetchLogs_start)"

text \<open>
  After the render that follows a batch of updates, React runs every effect one of whose
  dependencies is a new object. Every call of \<open>setLogs\<close> and \<open>setFilters\<close> in this
  program passes a fresh array or object, so the dependency changed exactly when the
  setter was called. The recompute effect (lines 106-109) depends on \<open>logs\<close>, \<open>filters\<close>
  and \<open>applyFilters\<close>; the fetch effect (lines 145-157) on \<open>fetchLogs\<close>, which like
  \<open>applyFilters\<close> is rebuilt exactly when \<open>filters\<close> changes. The effects set
  \<open>filteredLogs\<close> and \<open>loading\<close> only, on which no effect depends, so one round settles
  the state. The updates of one handler are applied together, in one render.
\<close>

fun sets_logs :: "update \<Rightarrow> bool" where
  "sets_logs (SetLogs g) = True"
| "sets_logs u = False"

fun sets_filters :: "update \<Rightarrow> bool" where
  "sets_filters (SetFilters g) = True"
| "sets_filters u = False"

definition recompute_effect :: "state \<Rightarrow> update list" where
  "recompute_effect s = [SetFilteredLogs (\<lambda>_. visibleSlice (filters s) (state.logs s))]"

definition effects :: "update list \<Rightarrow> state \<Rightarrow> update list" where
  "effects us s =
     (if list_ex sets_logs us \<or> list_ex sets_filters us then recompute_effect s else [])
     @ (if list_ex sets_filters us then fetchLogs_start else [])"

definition transition :: "state \<Rightarrow> event \<Rightarrow> state" where
  "transition s e =
     (let us = handler s e; s' = commit us s in commit (effects us s') s')"

text \<open>
  The state of the first render (the initial values of lines 21-40), and the state once
  the effects of the mount have run: all of them run then.
\<close>

definition init :: state where
  "init =
     \<lparr>state.logs = [], filteredLogs = [],
      stats = \<lparr>INFO = 0, WARN = 0, ERROR = 0, total = 0, errorRate = 0\<rparr>,
      filters = initial_filters, loading = False, realTimeEnabled = True,
      pagination = None, console = []\<rparr>"

definition mounted :: state where
  "mounted = commit (recompute_effect init @ fetchLogs_start) init"

text \<open>
  The page-size select offers 25, 50 and 100, and nothing else writes \<open>limit\<close>: a limit
  that a filter change sets is positive.
\<close>

fun limit_positive :: "event \<Rightarrow> bool" where
  "limit_positive (FilterChange (Limit v)) = (0 < v)"
| "limit_positive e = True"

inductive reachable :: "state \<Rightarrow> bool" where
  start: "reachable mounted"
| step: "reachable s \<Longrightarrow> limit_positive e \<Longrightarrow> reachable (transition s e)"

section \<open>The settled-state invariant and example data\<close>

text \<open>
  A state is settled when its limit is positive and its visible list is what the
  recompute effect would write for its history and filters.
\<close>

definition settled :: "state \<Rightarrow> bool" where
  "settled s =
     (0 < filters.limit (filters s) \<and>
      filteredLogs s = visibleSlice (filters s) (state.logs s))"

text \<open>Log records, filters, responses and runs used as concrete inputs below.\<close>

definition log_info :: log where
  "log_info =
     \<lparr>ident = ''a1'', timestamp = ''2024-05-01T10:00:00Z'', level = ''INFO'',
      service = ''auth'', message = ''Auth failed''\<rparr>"

definition log_error :: log where
  "log_error =
     \<lparr>ident = ''a2'', timestamp = ''2024-05-01T10:00:01Z'', level = ''ERROR'',
      service = ''payments'', message = ''Card declined''\<rparr>"

definition log_warn :: log where
  "log_warn =
     \<lparr>ident = ''a3'', timestamp = ''2024-05-01T10:00:02Z'', level = ''WARN'',
      service = ''notifications'', message = ''Queue is slow''\<rparr>"

definition log_old1 :: log where
  "log_old1 =
     \<lparr>ident = ''b1'', timestamp = ''2024-05-01T09:59:58Z'', level = ''INFO'',
      service = ''payments'', message = ''Payment accepted''\<rparr>"

definition log_old2 :: log where
  "log_old2 =
     \<lparr>ident = ''b2'', timestamp = ''2024-05-01T09:59:57Z'', level = ''WARN'',
      service = ''auth'', message = ''Token expires soon''\<rparr>"


text \<open>The level filter set to ERROR, then three records pushed: WARN, ERROR, INFO.\<close>

definition errors_only :: state where
  "errors_only =
     transition (transition (transition (transition mounted (FilterChange (Level ''ERROR'')))
       (NewLog log_warn)) (NewLog log_error)) (NewLog log_info)"

text \<open>Three records pushed with no filter set, and a page of two other records.\<close>

definition three_pushed :: state where
  "three_pushed =
     transition (transition (transition mounted (NewLog log_warn)) (NewLog log_error))
       (NewLog log_info)"

definition page_of_two :: response where
  "page_of_two =
     \<lparr>response.logs = [log_old1, log_old2],
      pagination = \<lparr>pagination.page = 1, pages = 1, total = 2\<rparr>\<rparr>"

definition info_only :: state where
  "info_only = transition mounted (FilterChange (Level ''INFO''))"

definition realtime_off :: state where
  "realtime_off = mounted\<lparr>realTimeEnabled := False\<rparr>"

text \<open>
  The page size set to 25, and a page of 26 records with distinct identifiers, as a
  request sent under a larger page size returns it.
\<close>

definition limit_25 :: state where
  "limit_25 = transition mounted (FilterChange (Limit 25))"

definition numbered_log :: "nat \<Rightarrow> log" where
  "numbered_log n =
     \<lparr>ident = replicate (Suc n) CHR ''c'', timestamp = ''2024-05-01T09:00:00Z'',
      level = ''INFO'', service = ''auth'', message = ''Login ok''\<rparr>"

definition page_of_26 :: response where
  "page_of_26 =
     \<lparr>response.logs = map numbered_log [0..<26],
      pagination = \<lparr>pagination.page = 1, pages = 1, total = 26\<rparr>\<rparr>"

section \<open>Library facts\<close>


lemma applyFilters_filter: "applyFilters f ls = filter (logMatchesFilters f) ls"
  by (simp add: applyFilters_def logMatchesFilters_def)

lemma slice_take: "0 \<le> n \<Longrightarrow> slice xs 0 n = take (nat n) xs"
  by (simp add: slice_def Let_def min_def)

lemma set_slice: "set (slice xs b e) \<subseteq> set xs"
proof -
  have "set (take n (drop k xs)) \<subseteq> set xs" for n k
    by (meson set_take_subset set_drop_subset subset_trans)
  then show ?thesis
    by (simp add: slice_def Let_def)
qed

lemma length_slice_prefix: "0 \<le> n \<Longrightarrow> int (length (slice xs 0 n)) \<le> n"
  by (simp add: slice_take)

lemma visibleSlice_take:
  "0 \<le> filters.limit f \<Longrightarrow>
   visibleSlice f ls = take (nat (filters.limit f)) (filter (logMatchesFilters f) ls)"
  by (simp add: visibleSlice_def applyFilters_filter slice_take)

text \<open>Prepending before a truncation to \<open>n\<close>, against truncating to \<open>n - 1\<close> and prepending.\<close>

lemma fast_path_list:
  assumes "0 < n"
  shows "l # slice (slice xs 0 n) 0 (n - 1) = slice (l # xs) 0 n"
proof -
  have "take (nat (n - 1)) (take (nat n) xs) = take (nat (n - 1)) xs"
    using assms by (simp add: min_def)
  moreover have "take (nat n) (l # xs) = l # take (nat (n - 1)) xs"
    using assms by (cases "nat n") (simp_all add: nat_diff_distrib')
  ultimately show ?thesis
    using assms by (simp add: slice_take)
qed

text \<open>
  The bound on the limit is needed: with limit 0 the end index of the handler's
  \<open>slice\<close> is \<open>-1\<close>, which counts from the end, and the two lists differ.
\<close>

lemma fast_path_list_limit_0: "l # slice (slice xs 0 0) 0 (0 - 1) \<noteq> slice (l # xs) 0 0"
  by (simp add: slice_def)

lemmas run_defs = transition_def Let_def effects_def commit_def recompute_effect_def
  fetchLogs_start_def handleFilterChange_def nextFilters_def on_newLog_def mounted_def init_def
  initial_filters_def visibleSlice_def applyFilters_def logMatchesFilters_def slice_def
  fetchLogs_settled_def

section \<open>Every transition leads from a settled state to a settled state\<close>

lemma settled_mounted: "settled mounted"
  by (simp add: settled_def mounted_def init_def initial_filters_def commit_def
      recompute_effect_def fetchLogs_start_def)

lemma settled_transition:
  assumes "settled s" and "limit_positive e"
  shows "settled (transition s e)"
proof (cases e)
  case (NewLog l)
  with assms show ?thesis
    by (simp add: settled_def transition_def Let_def effects_def commit_def
        recompute_effect_def on_newLog_def)
next
  case (StatsUpdate st)
  with assms show ?thesis
    by (simp add: settled_def transition_def Let_def effects_def commit_def on_statsUpdate_def)
next
  case (LogsFetched r)
  with assms show ?thesis
    by (cases r) (simp_all add: settled_def transition_def Let_def effects_def commit_def
        recompute_effect_def fetchLogs_settled_def)
next
  case (StatsFetched r)
  with assms show ?thesis
    by (cases r) (simp_all add: settled_def transition_def Let_def effects_def commit_def
        fetchStats_settled_def)
next
  case (FilterChange kv)
  with assms show ?thesis
    by (cases kv) (simp_all add: settled_def transition_def Let_def effects_def commit_def
        recompute_effect_def fetchLogs_start_def handleFilterChange_def nextFilters_def)
next
  case (PageChange p)
  with assms show ?thesis
    by (simp add: settled_def transition_def Let_def effects_def commit_def
        recompute_effect_def fetchLogs_start_def handlePageChange_def)
next
  case ClearFilters
  with assms show ?thesis
    by (simp add: settled_def transition_def Let_def effects_def commit_def
        recompute_effect_def fetchLogs_start_def clearFilters_def initial_filters_def)
next
  case Tick
  with assms show ?thesis
    by (simp add: settled_def transition_def Let_def effects_def commit_def fetchLogs_start_def)
qed

lemma reachable_settled: "reachable s \<Longrightarrow> settled s"
  by (induction rule: reachable.induct) (simp_all add: settled_mounted settled_transition)

section \<open>The filter predicate\<close>



section \<open>The visible slice in settled states\<close>

text \<open>
  Claim C1. In every state the component reaches once a transition has settled (a filter
  change, a page change, a snapshot, a push event, or any other event), the visible list
  \<open>filteredLogs\<close> is the full history \<open>logs\<close> filtered by the predicate, in the order of
  the history, cut to the first \<open>limit\<close> entries.
\<close>

theorem visible_slice_invariant:
  "reachable s \<Longrightarrow>
   filteredLogs s =
     take (nat (filters.limit (filters s)))
          (filter (logMatchesFilters (filters s)) (state.logs s))"
  using reachable_settled [of s] by (simp add: settled_def visibleSlice_take)

text \<open>With the level filter at ERROR and a history of INFO, ERROR, WARN.\<close>

theorem visible_slice_invariant_witness:
  "reachable errors_only \<and>
   filteredLogs errors_only =
     take (nat (filters.limit (filters errors_only)))
          (filter (logMatchesFilters (filters errors_only)) (state.logs errors_only))"
proof -
  have h: "reachable errors_only"
    unfolding errors_only_def by (intro reachable.intros) simp_all
  show ?thesis
    using h visible_slice_invariant [OF h] by simp
qed

lemma errors_only_lists:
  "state.logs errors_only = [log_info, log_error, log_warn] \<and>
   filteredLogs errors_only = [log_error]"
  by (simp add: errors_only_def run_defs log_info_def log_error_def log_warn_def)

section \<open>The push handler\<close>

text \<open>
  Claim C2. In real-time mode, for a positive limit and a record that matches the
  filters: if the visible list is the recompute of the history, then the list the
  handler's own update leaves (the record in front of the first \<open>limit - 1\<close> visible
  entries) is the recompute of the history with the record in front, and the recompute
  effect that follows changes nothing.
\<close>

theorem fast_path_agrees:
  assumes "realTimeEnabled s"
    and "0 < filters.limit (filters s)"
    and "logMatchesFilters (filters s) l"
    and "filteredLogs s = visibleSlice (filters s) (state.logs s)"
  shows "filteredLogs (commit (on_newLog s l) s) = visibleSlice (filters s) (l # state.logs s)
         \<and> transition s (NewLog l) = commit (on_newLog s l) s"
proof -
  have "l # slice (visibleSlice (filters s) (state.logs s)) 0 (filters.limit (filters s) - 1)
        = visibleSlice (filters s) (l # state.logs s)"
    using assms(2,3) fast_path_list [of "filters.limit (filters s)" l]
    by (simp add: visibleSlice_def applyFilters_filter)
  with assms(1,3,4) show ?thesis
    by (simp add: on_newLog_def commit_def transition_def Let_def effects_def
        recompute_effect_def)
qed

theorem fast_path_agrees_witness:
  "realTimeEnabled mounted \<and> 0 < filters.limit (filters mounted) \<and>
   logMatchesFilters (filters mounted) log_info \<and>
   filteredLogs mounted = visibleSlice (filters mounted) (state.logs mounted) \<and>
   filteredLogs (commit (on_newLog mounted log_info) mounted)
     = visibleSlice (filters mounted) (log_info # state.logs mounted) \<and>
   transition mounted (NewLog log_info) = commit (on_newLog mounted log_info) mounted"
proof -
  have h: "realTimeEnabled mounted" "0 < filters.limit (filters mounted)"
    "logMatchesFilters (filters mounted) log_info"
    "filteredLogs mounted = visibleSlice (filters mounted) (state.logs mounted)"
    by (simp_all add: run_defs)
  show ?thesis
    using h fast_path_agrees [OF h] by simp
qed

text \<open>
  Claim C5. While real-time mode is off, the handler of a push event queues no update
  at all, and the state after the event is the state before it, in every field; the
  state has no place where the record could wait.
\<close>

theorem newLog_dropped:
  "\<not> realTimeEnabled s \<Longrightarrow> on_newLog s l = [] \<and> transition s (NewLog l) = s"
  by (simp add: on_newLog_def transition_def Let_def effects_def commit_def)

theorem newLog_dropped_witness:
  "\<not> realTimeEnabled realtime_off \<and> on_newLog realtime_off log_info = [] \<and>
   transition realtime_off (NewLog log_info) = realtime_off"
  using newLog_dropped [of realtime_off log_info] by (simp add: realtime_off_def)

text \<open>
  Claim C6. While real-time mode is on, a pushed record becomes the first entry of the
  full history whether or not it matches the filters; a record that does not match
  leaves the visible list as it was, and is not in the visible list once the state has
  settled.
\<close>

theorem newLog_prepended:
  assumes "realTimeEnabled s"
  shows "state.logs (transition s (NewLog l)) = l # state.logs s \<and>
         (\<not> logMatchesFilters (filters s) l \<longrightarrow>
            filteredLogs (commit (on_newLog s l) s) = filteredLogs s \<and>
            l \<notin> set (filteredLogs (transition s (NewLog l))))"
proof -
  have "l \<notin> set (visibleSlice (filters s) (l # state.logs s))"
    if "\<not> logMatchesFilters (filters s) l"
    using that set_slice [of "filter (logMatchesFilters (filters s)) (state.logs s)" 0
        "filters.limit (filters s)"]
    by (auto simp: visibleSlice_def applyFilters_filter)
  with assms show ?thesis
    by (simp add: on_newLog_def transition_def Let_def effects_def commit_def
        recompute_effect_def)
qed

text \<open>An ERROR record pushed while the level filter is INFO.\<close>

theorem newLog_prepended_witness:
  "realTimeEnabled info_only \<and> \<not> logMatchesFilters (filters info_only) log_error \<and>
   state.logs (transition info_only (NewLog log_error)) = log_error # state.logs info_only \<and>
   filteredLogs (commit (on_newLog info_only log_error) info_only) = filteredLogs info_only \<and>
   log_error \<notin> set (filteredLogs (transition info_only (NewLog log_error)))"
proof -
  have h: "realTimeEnabled info_only"
    by (simp add: info_only_def run_defs)
  have n: "\<not> logMatchesFilters (filters info_only) log_error"
    by (simp add: info_only_def run_defs log_error_def)
  show ?thesis
    using h n newLog_prepended [OF h, of log_error] by simp
qed

text \<open>
  Claim C10. A \<open>statsUpdate\<close> message replaces the displayed stats by the message, in
  every state, real-time mode on or off, and changes nothing else.
\<close>

theorem statsUpdate_replaces:
  "stats (transition s (StatsUpdate newStats)) = newStats \<and>
   transition s (StatsUpdate newStats) = s\<lparr>stats := newStats\<rparr>"
  by (simp add: on_statsUpdate_def transition_def Let_def effects_def commit_def)

section \<open>The snapshot fetch\<close>

text \<open>
  Claim C4. When a snapshot request succeeds, its page becomes the full history, the
  visible list and, with the page's pagination, the pagination metadata. The history
  stays the page when the state settles, where the visible list is the recompute of the
  page; a record of the earlier history that is not on the page is in the history no
  longer.
\<close>

theorem snapshot_replaces:
  "state.logs (commit (fetchLogs_settled (Inr resp)) s) = response.logs resp \<and>
   filteredLogs (commit (fetchLogs_settled (Inr resp)) s) = response.logs resp \<and>
   state.pagination (commit (fetchLogs_settled (Inr resp)) s) = Some (response.pagination resp) \<and>
   state.logs (transition s (LogsFetched (Inr resp))) = response.logs resp \<and>
   state.pagination (transition s (LogsFetched (Inr resp))) = Some (response.pagination resp) \<and>
   filteredLogs (transition s (LogsFetched (Inr resp)))
     = visibleSlice (filters s) (response.logs resp) \<and>
   (\<forall>l \<in> set (state.logs s) - set (response.logs resp).
      l \<notin> set (state.logs (transition s (LogsFetched (Inr resp)))))"
  by (simp add: fetchLogs_settled_def commit_def transition_def Let_def effects_def
      recompute_effect_def)

text \<open>Three pushed records, then a page of two other records lands.\<close>

theorem snapshot_replaces_witness:
  "log_info \<in> set (state.logs three_pushed) - set (response.logs page_of_two) \<and>
   log_info \<notin> set (state.logs (transition three_pushed (LogsFetched (Inr page_of_two)))) \<and>
   state.logs (transition three_pushed (LogsFetched (Inr page_of_two))) = [log_old1, log_old2]"
  using snapshot_replaces [of page_of_two three_pushed]
  by (simp add: three_pushed_def page_of_two_def run_defs log_info_def log_old1_def
      log_old2_def)

text \<open>
  Claim C8. When a snapshot request fails, by a network error or by a status outside
  2xx, the error is written to the console and the loading flag is cleared; the full
  history, the visible list, the pagination, the stats and the filters stay as they
  were.
\<close>

theorem fetch_failure_keeps_state:
  "transition s (LogsFetched (Inl err)) =
     s\<lparr>loading := False, console := console s @ [(''Error fetching logs:'', err)]\<rparr>"
  by (simp add: fetchLogs_settled_def commit_def transition_def Let_def effects_def)

section \<open>The length of the visible list\<close>

text \<open>
  Claim C7 says that the visible list has at most \<open>limit\<close> entries at all times. That
  fails between a snapshot and the recompute that follows it: the snapshot handler stores
  the page as it came (line 125), and until the recompute effect has run the visible
  list is that page. Here the page size is 25 and a page of 26 records lands.
\<close>

theorem snapshot_longer_than_limit:
  "reachable limit_25 \<and> filters.limit (filters limit_25) = 25 \<and>
   \<not> int (length (filteredLogs (commit (handler limit_25 (LogsFetched (Inr page_of_26))) limit_25)))
       \<le> filters.limit (filters (commit (handler limit_25 (LogsFetched (Inr page_of_26))) limit_25))"
proof -
  have "reachable limit_25"
    unfolding limit_25_def by (intro reachable.intros) simp_all
  then show ?thesis
    by (simp add: limit_25_def page_of_26_def run_defs)
qed

text \<open>
  Claim C7, amended. The list a recompute writes has at most \<open>limit\<close> entries (for a
  limit that is not negative); the list the push handler's own update leaves for a
  matching record has at most \<open>limit\<close> entries (for a positive limit), whatever the
  length of the list before; and in every settled state that the component reaches the
  visible list has at most \<open>limit\<close> entries.
\<close>

theorem visible_length_bounded:
  "(0 \<le> filters.limit f \<longrightarrow> int (length (visibleSlice f ls)) \<le> filters.limit f) \<and>
   (realTimeEnabled s \<and> 0 < filters.limit (filters s) \<and> logMatchesFilters (filters s) l \<longrightarrow>
      int (length (filteredLogs (commit (on_newLog s l) s))) \<le> filters.limit (filters s)) \<and>
   (reachable t \<longrightarrow> int (length (filteredLogs t)) \<le> filters.limit (filters t))"
proof (intro conjI impI)
  assume "0 \<le> filters.limit f"
  then show "int (length (visibleSlice f ls)) \<le> filters.limit f"
    by (simp add: visibleSlice_def length_slice_prefix)
next
  assume a: "realTimeEnabled s \<and> 0 < filters.limit (filters s) \<and> logMatchesFilters (filters s) l"
  then have "0 \<le> filters.limit (filters s) - 1"
    by simp
  then have "int (length (slice (filteredLogs s) 0 (filters.limit (filters s) - 1)))
             \<le> filters.limit (filters s) - 1"
    by (rule length_slice_prefix)
  moreover have "filteredLogs (commit (on_newLog s l) s)
                 = l # slice (filteredLogs s) 0 (filters.limit (filters s) - 1)"
    using a by (simp add: on_newLog_def commit_def)
  ultimately show "int (length (filteredLogs (commit (on_newLog s l) s)))
                   \<le> filters.limit (filters s)"
    by simp
next
  assume "reachable t"
  then have "settled t" by (rule reachable_settled)
  then show "int (length (filteredLogs t)) \<le> filters.limit (filters t)"
    by (simp add: settled_def visibleSlice_def length_slice_prefix)
qed

theorem visible_length_bounded_witness:
  "0 \<le> filters.limit initial_filters \<and> realTimeEnabled mounted \<and>
   0 < filters.limit (filters mounted) \<and> logMatchesFilters (filters mounted) log_info \<and>
   reachable errors_only \<and>
   int (length (visibleSlice initial_filters [log_info, log_error]))
     \<le> filters.limit initial_filters \<and>
   int (length (filteredLogs (commit (on_newLog mounted log_info) mounted)))
     \<le> filters.limit (filters mounted) \<and>
   int (length (filteredLogs errors_only)) \<le> filters.limit (filters errors_only)"
proof -
  have h: "0 \<le> filters.limit initial_filters" "realTimeEnabled mounted"
    "0 < filters.limit (filters mounted)" "logMatchesFilters (filters mounted) log_info"
    by (simp_all add: run_defs)
  have r: "reachable errors_only"
    unfolding errors_only_def by (intro reachable.intros) simp_all
  show ?thesis
    using h r
      visible_length_bounded [of initial_filters "[log_info, log_error]" mounted log_info
        errors_only]
    by simp
qed

section \<open>Filter changes\<close>

text \<open>
  Claim C9. A change of the level, the service, the search text or the limit gives
  filters in which the changed field has the new value, the page is 1 and every other
  field is as before; these are the filters of the state after the change.
\<close>

theorem filter_change_resets_page:
  "nextFilters (Level v) f =
     \<lparr>filters.level = v, service = filters.service f, search = filters.search f,
      limit = filters.limit f, page = 1\<rparr> \<and>
   nextFilters (Service v) f =
     \<lparr>filters.level = filters.level f, service = v, search = filters.search f,
      limit = filters.limit f, page = 1\<rparr> \<and>
   nextFilters (Search v) f =
     \<lparr>filters.level = filters.level f, service = filters.service f, search = v,
      limit = filters.limit f, page = 1\<rparr> \<and>
   nextFilters (Limit n) f =
     \<lparr>filters.level = filters.level f, service = filters.service f,
      search = filters.search f, limit = n, page = 1\<rparr> \<and>
   filters (transition s (FilterChange kv)) = nextFilters kv (filters s)"
  by (simp add: nextFilters_def transition_def Let_def effects_def commit_def
      handleFilterChange_def recompute_effect_def fetchLogs_start_def)

end
